theory Spec2Isabelle
  imports Complex_Main "HOL-Library.Word"
begin

section \<open>JavaScript values\<close>

text \<open>
  A JavaScript string is a sequence of 16-bit code units; \<open>length\<close>, \<open>substring\<close>,
  \<open>includes\<close> and the regular expressions of \<^verbatim>\<open>server.js\<close> all work on code units.
  \<open>str\<close> embeds an ASCII literal of the source.
\<close>

type_synonym code_unit = "16 word"
type_synonym jsstring = "code_unit list"

definition str :: "string \<Rightarrow> jsstring" where
  "str s = map of_char s"

text \<open>
  The values \<open>JSON.parse\<close> produces, and \<open>undefined\<close> for a member that is absent.
  A number is kept as the exact rational its literal denotes. An object is the list of
  its members in source order; a later member of the same name overrides an earlier one.
\<close>

datatype jsval =
    JUndefined
  | JNull
  | JBool bool
  | JNum rat
  | JStr jsstring
  | JArr "jsval list"
  | JObj "(jsstring \<times> jsval) list"

text \<open>
  \<open>ToBoolean\<close>. A number literal is read as the nearest double, so it is \<open>0\<close> (falsy)
  exactly when its magnitude is at most half the least subnormal, \<open>2\<^sup>-\<^sup>1\<^sup>0\<^sup>7\<^sup>5\<close>.
\<close>

fun truthy :: "jsval \<Rightarrow> bool" where
  "truthy JUndefined = False"
| "truthy JNull = False"
| "truthy (JBool b) = b"
| "truthy (JNum q) = (\<bar>q\<bar> > 1 / 2 ^ 1075)"
| "truthy (JStr s) = (s \<noteq> [])"
| "truthy (JArr xs) = True"
| "truthy (JObj kvs) = True"

text \<open>The operator \<^verbatim>\<open>a || b\<close>.\<close>

definition js_or :: "jsval \<Rightarrow> jsval \<Rightarrow> jsval" where
  "js_or a b = (if truthy a then a else b)"

text \<open>A thrown \<open>Error\<close> (a \<open>TypeError\<close> included), by its \<open>message\<close>.\<close>

datatype js_error = Error (message: jsstring)

text \<open>Own member lookup in an object: the last member of that name.\<close>

definition obj_member :: "(jsstring \<times> jsval) list \<Rightarrow> jsstring \<Rightarrow> jsval" where
  "obj_member kvs k = (case map_of (rev kvs) k of None \<Rightarrow> JUndefined | Some v \<Rightarrow> v)"

text \<open>
  Reading the member \<open>k\<close> of a value, for the member names the source reads from
  JSON values (\<open>title\<close>, \<open>description\<close>): neither is inherited from a prototype,
  so on a boolean, number, string or array the result is \<open>undefined\<close>. Reading a
  member of \<open>undefined\<close> or \<open>null\<close> throws a \<open>TypeError\<close>.
\<close>

definition get_member :: "jsval \<Rightarrow> jsstring \<Rightarrow> js_error + jsval" where
  "get_member v k =
     (case v of
        JUndefined \<Rightarrow>
          Inl (Error (str ''Cannot read properties of undefined (reading '' @ [0x27] @ k @ [0x27] @ str '')''))
      | JNull \<Rightarrow>
          Inl (Error (str ''Cannot read properties of null (reading '' @ [0x27] @ k @ [0x27] @ str '')''))
      | JObj kvs \<Rightarrow> Inr (obj_member kvs k)
      | _ \<Rightarrow> Inr JUndefined)"

text \<open>\<open>String.prototype.includes\<close>: \<open>pat\<close> occurs in \<open>s\<close> as a contiguous run.\<close>

fun js_includes :: "jsstring \<Rightarrow> jsstring \<Rightarrow> bool" where
  "js_includes [] pat = (pat = [])"
| "js_includes (c # cs) pat = (take (length pat) (c # cs) = pat \<or> js_includes cs pat)"

text \<open>
  What the engine supplies and the repository does not define: \<open>toLowerCase\<close> (the
  Unicode default case conversion), and the comparison \<^verbatim>\<open>v < 10\<close> for a value \<open>v\<close>
  that is an object's own \<open>length\<close> member (\<open>ToNumber\<close> of an arbitrary value). The
  model takes both as parameters, so every theorem holds for every engine.
\<close>

record runtime =
  toLowerCase :: "jsstring \<Rightarrow> jsstring"
  lessThan10 :: "jsval \<Rightarrow> bool"

text \<open>
  A concrete runtime for evaluating examples: it lower-cases the ASCII letters, as the
  engine does on ASCII text, and compares numbers, \<open>null\<close> and booleans with 10.
\<close>

definition ascii_lower :: "jsstring \<Rightarrow> jsstring" where
  "ascii_lower s = map (\<lambda>c. if 65 \<le> c \<and> c \<le> 90 then c + 32 else c) s"

fun number_lt10 :: "jsval \<Rightarrow> bool" where
  "number_lt10 (JNum q) = (q < 10)"
| "number_lt10 JNull = True"
| "number_lt10 (JBool b) = True"
| "number_lt10 v = False"

definition ascii_runtime :: runtime where
  "ascii_runtime = \<lparr>toLowerCase = ascii_lower, lessThan10 = number_lt10\<rparr>"

section \<open>The fallback generator\<close>

text \<open>A suggestion object: the two members the service returns.\<close>

record suggestion =
  title :: jsval
  description :: jsval

text \<open>\<^verbatim>\<open>generateFallbackSuggestions(content)\<close>, \<^verbatim>\<open>server.js\<close> lines 187 to 235.\<close>

definition generateFallbackSuggestions :: "runtime \<Rightarrow> jsstring \<Rightarrow> suggestion list" where
  "generateFallbackSuggestions rt content =
     (let contentLower = toLowerCase rt content;
          suggestions = [];
          suggestions =
            (if js_includes contentLower (str ''data'') \<or> js_includes contentLower (str ''analytics'')
                \<or> js_includes contentLower (str ''analysis'')
             then suggestions @
               [\<lparr>title = JStr (str ''Data Analytics Courses''),
                 description = JStr (str ''Explore data science and analytics courses on LinkedIn Learning'')\<rparr>]
             else suggestions);
          suggestions =
            (if js_includes contentLower (str ''marketing'') \<or> js_includes contentLower (str ''brand'')
                \<or> js_includes contentLower (str ''campaign'')
             then suggestions @
               [\<lparr>title = JStr (str ''Digital Marketing Resources''),
                 description = JStr (str ''Find marketing professionals and learning resources'')\<rparr>]
             else suggestions);
          suggestions =
            (if js_includes contentLower (str ''leadership'') \<or> js_includes contentLower (str ''management'')
                \<or> js_includes contentLower (str ''team'')
             then suggestions @
               [\<lparr>title = JStr (str ''Leadership Development''),
                 description = JStr (str ''Connect with leaders and explore management courses'')\<rparr>]
             else suggestions);
          suggestions =
            (if js_includes contentLower (str ''tech'') \<or> js_includes contentLower (str ''software'')
                \<or> js_includes contentLower (str ''developer'')
             then suggestions @
               [\<lparr>title = JStr (str ''Technology Skills''),
                 description = JStr (str ''Discover the latest tech courses and connect with developers'')\<rparr>]
             else suggestions);
          suggestions =
            (if length suggestions = 0
             then suggestions @
               [\<lparr>title = JStr (str ''Professional Development''),
                 description = JStr (str ''Discover learning opportunities related to this topic'')\<rparr>,
                \<lparr>title = JStr (str ''Network Growth''),
                 description = JStr (str ''Connect with professionals in your field'')\<rparr>]
             else suggestions)
      in take 2 suggestions)"

subsection \<open>The generator as the specification words it\<close>

text \<open>
  The four keyword families in their precedence order, each with its fixed suggestion,
  and the two defaults; \<open>matched_families\<close> keeps, in that order, the suggestion of
  every family one of whose keywords occurs in the lower-cased content.
\<close>

definition keyword_families :: "(jsstring list \<times> suggestion) list" where
  "keyword_families =
     [([str ''data'', str ''analytics'', str ''analysis''],
       \<lparr>title = JStr (str ''Data Analytics Courses''),
        description = JStr (str ''Explore data science and analytics courses on LinkedIn Learning'')\<rparr>),
      ([str ''marketing'', str ''brand'', str ''campaign''],
       \<lparr>title = JStr (str ''Digital Marketing Resources''),
        description = JStr (str ''Find marketing professionals and learning resources'')\<rparr>),
      ([str ''leadership'', str ''management'', str ''team''],
       \<lparr>title = JStr (str ''Leadership Development''),
        description = JStr (str ''Connect with leaders and explore management courses'')\<rparr>),
      ([str ''tech'', str ''software'', str ''developer''],
       \<lparr>title = JStr (str ''Technology Skills''),
        description = JStr (str ''Discover the latest tech courses and connect with developers'')\<rparr>)]"

definition all_keywords :: "jsstring list" where
  "all_keywords = concat (map fst keyword_families)"

definition family_matches :: "jsstring \<Rightarrow> jsstring list \<times> suggestion \<Rightarrow> bool" where
  "family_matches lowered fam = list_ex (js_includes lowered) (fst fam)"

definition matched_families :: "jsstring \<Rightarrow> suggestion list" where
  "matched_families lowered = map snd (filter (family_matches lowered) keyword_families)"

definition default_suggestions :: "suggestion list" where
  "default_suggestions =
     [\<lparr>title = JStr (str ''Professional Development''),
       description = JStr (str ''Discover learning opportunities related to this topic'')\<rparr>,
      \<lparr>title = JStr (str ''Network Growth''),
       description = JStr (str ''Connect with professionals in your field'')\<rparr>]"

section \<open>Text clean-up\<close>

text \<open>
  \<open>String.prototype.trim\<close> removes the white space and line terminators of
  ECMAScript from both ends.
\<close>

definition js_whitespace :: "code_unit \<Rightarrow> bool" where
  "js_whitespace c \<longleftrightarrow>
     c \<in> {0x9, 0xA, 0xB, 0xC, 0xD, 0x20, 0xA0, 0x1680, 0x2028, 0x2029, 0x202F, 0x205F, 0x3000, 0xFEFF}
     \<or> (0x2000 \<le> c \<and> c \<le> 0x200A)"

definition js_trim :: "jsstring \<Rightarrow> jsstring" where
  "js_trim s = rev (dropWhile js_whitespace (rev (dropWhile js_whitespace s)))"

text \<open>
  \<^verbatim>\<open>String.prototype.replace\<close> with a global regular expression that is a literal,
  non-empty \<open>pat\<close> followed by an optional newline, and with the empty replacement:
  scanning from the left, every occurrence of \<open>pat\<close> is deleted together with one
  newline that follows it.
\<close>

definition drop_newline :: "jsstring \<Rightarrow> jsstring" where
  "drop_newline s = (case s of [] \<Rightarrow> [] | c # cs \<Rightarrow> if c = 0xA then cs else c # cs)"

function replace_fence :: "jsstring \<Rightarrow> jsstring \<Rightarrow> jsstring" where
  "replace_fence pat [] = []"
| "replace_fence pat (c # cs) =
     (if pat \<noteq> [] \<and> take (length pat) (c # cs) = pat
      then replace_fence pat (drop_newline (drop (length pat) (c # cs)))
      else c # replace_fence pat cs)"
  by pat_completeness auto
termination
proof (relation "measure (\<lambda>(pat, s). length s)")
  fix pat :: jsstring and c cs
  assume "pat \<noteq> [] \<and> take (length pat) (c # cs) = pat"
  then have "0 < length pat" by simp
  then have "length (drop (length pat) (c # cs)) < length (c # cs)" by simp
  moreover have "length (drop_newline t) \<le> length t" for t
    by (simp add: drop_newline_def split: list.splits)
  ultimately have "length (drop_newline (drop (length pat) (c # cs))) < length (c # cs)"
    by (rule le_less_trans [rotated])
  then show "((pat, drop_newline (drop (length pat) (c # cs))), (pat, c # cs)) \<in> measure (\<lambda>(pat, s). length s)"
    by simp
qed simp_all

section \<open>JSON.parse\<close>

text \<open>
  The JSON grammar of ECMAScript: the four white space characters, the literals, numbers
  without leading zeros, strings with the eight short escapes and the escape of four hexadecimal
  digits, arrays and objects without trailing commas. Each parser returns the value read and the rest
  of the input, or \<open>None\<close> for a \<open>SyntaxError\<close>.
\<close>

definition json_ws :: "code_unit \<Rightarrow> bool" where
  "json_ws c \<longleftrightarrow> c = 0x20 \<or> c = 0x9 \<or> c = 0xA \<or> c = 0xD"

definition skip_ws :: "jsstring \<Rightarrow> jsstring" where
  "skip_ws s = dropWhile json_ws s"

definition is_digit :: "code_unit \<Rightarrow> bool" where
  "is_digit c \<longleftrightarrow> 0x30 \<le> c \<and> c \<le> 0x39"

definition digits_value :: "jsstring \<Rightarrow> nat" where
  "digits_value ds = foldl (\<lambda>a c. 10 * a + unat (c - 0x30)) 0 ds"

definition hex_value :: "code_unit \<Rightarrow> code_unit option" where
  "hex_value c =
     (if 0x30 \<le> c \<and> c \<le> 0x39 then Some (c - 0x30)
      else if 0x41 \<le> c \<and> c \<le> 0x46 then Some (c - 0x41 + 10)
      else if 0x61 \<le> c \<and> c \<le> 0x66 then Some (c - 0x61 + 10)
      else None)"

definition starts_with :: "jsstring \<Rightarrow> jsstring \<Rightarrow> bool" where
  "starts_with pat s \<longleftrightarrow> take (length pat) s = pat"

definition parse_int_part :: "jsstring \<Rightarrow> (nat \<times> jsstring) option" where
  "parse_int_part s =
     (case s of
        [] \<Rightarrow> None
      | c # cs \<Rightarrow>
          if c = 0x30 then Some (0, cs)
          else if is_digit c then Some (digits_value (takeWhile is_digit s), dropWhile is_digit s)
          else None)"

definition parse_frac_part :: "jsstring \<Rightarrow> (rat \<times> jsstring) option" where
  "parse_frac_part s =
     (case s of
        [] \<Rightarrow> Some (0, s)
      | c # cs \<Rightarrow>
          if c = 0x2E then
            (let ds = takeWhile is_digit cs in
             if ds = [] then None
             else Some (of_nat (digits_value ds) / 10 ^ length ds, dropWhile is_digit cs))
          else Some (0, s))"

definition parse_exp_digits :: "bool \<Rightarrow> jsstring \<Rightarrow> (int \<times> jsstring) option" where
  "parse_exp_digits neg s =
     (let ds = takeWhile is_digit s in
      if ds = [] then None
      else Some (if neg then - int (digits_value ds) else int (digits_value ds), dropWhile is_digit s))"

definition parse_exp_part :: "jsstring \<Rightarrow> (int \<times> jsstring) option" where
  "parse_exp_part s =
     (case s of
        [] \<Rightarrow> Some (0, s)
      | c # cs \<Rightarrow>
          if c = 0x65 \<or> c = 0x45 then
            (case cs of
               [] \<Rightarrow> None
             | d # ds \<Rightarrow>
                 if d = 0x2B then parse_exp_digits False ds
                 else if d = 0x2D then parse_exp_digits True ds
                 else parse_exp_digits False cs)
          else Some (0, s))"

definition scale10 :: "rat \<Rightarrow> int \<Rightarrow> rat" where
  "scale10 q e = (if e < 0 then q / 10 ^ nat (- e) else q * 10 ^ nat e)"

definition parse_unsigned :: "jsstring \<Rightarrow> (rat \<times> jsstring) option" where
  "parse_unsigned s =
     (case parse_int_part s of
        None \<Rightarrow> None
      | Some (i, r1) \<Rightarrow>
          (case parse_frac_part r1 of
             None \<Rightarrow> None
           | Some (f, r2) \<Rightarrow>
               (case parse_exp_part r2 of
                  None \<Rightarrow> None
                | Some (e, r3) \<Rightarrow> Some (scale10 (of_nat i + f) e, r3))))"

definition parse_number :: "jsstring \<Rightarrow> (rat \<times> jsstring) option" where
  "parse_number s =
     (case s of
        [] \<Rightarrow> None
      | c # cs \<Rightarrow>
          if c = 0x2D then map_option (\<lambda>(q, r). (- q, r)) (parse_unsigned cs)
          else parse_unsigned s)"

definition escape_char :: "code_unit \<Rightarrow> code_unit option" where
  "escape_char e =
     (if e = 0x22 then Some 0x22
      else if e = 0x5C then Some 0x5C
      else if e = 0x2F then Some 0x2F
      else if e = 0x62 then Some 0x8
      else if e = 0x66 then Some 0xC
      else if e = 0x6E then Some 0xA
      else if e = 0x72 then Some 0xD
      else if e = 0x74 then Some 0x9
      else None)"

definition hex4 :: "code_unit \<Rightarrow> code_unit \<Rightarrow> code_unit \<Rightarrow> code_unit \<Rightarrow> code_unit option" where
  "hex4 a b c d =
     (case (hex_value a, hex_value b, hex_value c, hex_value d) of
        (Some w, Some x, Some y, Some z) \<Rightarrow> Some (((w * 16 + x) * 16 + y) * 16 + z)
      | _ \<Rightarrow> None)"

definition cons_result :: "code_unit \<Rightarrow> (jsstring \<times> jsstring) option \<Rightarrow> (jsstring \<times> jsstring) option" where
  "cons_result c res = map_option (\<lambda>(t, r). (c # t, r)) res"

fun parse_string_chars :: "jsstring \<Rightarrow> (jsstring \<times> jsstring) option" where
  "parse_string_chars [] = None"
| "parse_string_chars (c # cs) =
     (if c = 0x22 then Some ([], cs)
      else if c < 0x20 then None
      else if c = 0x5C then
        (case cs of
           [] \<Rightarrow> None
         | e # es \<Rightarrow>
             if e = 0x75 then
               (case es of
                  h1 # h2 # h3 # h4 # rest \<Rightarrow>
                    (case hex4 h1 h2 h3 h4 of
                       None \<Rightarrow> None
                     | Some u \<Rightarrow> cons_result u (parse_string_chars rest))
                | _ \<Rightarrow> None)
             else
               (case escape_char e of
                  None \<Rightarrow> None
                | Some u \<Rightarrow> cons_result u (parse_string_chars es)))
      else cons_result c (parse_string_chars cs))"

text \<open>
  Values nest, so the three mutually recursive parsers count down a bound on the calls
  still allowed; \<open>json_parse\<close> starts them with \<open>2 * length s + 2\<close>, which is shown
  below to be enough for every input \<open>s\<close>.
\<close>

fun parse_value :: "nat \<Rightarrow> jsstring \<Rightarrow> (jsval \<times> jsstring) option"
  and parse_elements :: "nat \<Rightarrow> jsstring \<Rightarrow> (jsval list \<times> jsstring) option"
  and parse_members :: "nat \<Rightarrow> jsstring \<Rightarrow> ((jsstring \<times> jsval) list \<times> jsstring) option"
where
  "parse_value 0 s = None"
| "parse_value (Suc n) s =
     (if starts_with (str ''null'') s then Some (JNull, drop 4 s)
      else if starts_with (str ''true'') s then Some (JBool True, drop 4 s)
      else if starts_with (str ''false'') s then Some (JBool False, drop 5 s)
      else
        (case s of
           [] \<Rightarrow> None
         | c # cs \<Rightarrow>
             if c = 0x22 then map_option (\<lambda>(t, r). (JStr t, r)) (parse_string_chars cs)
             else if c = 0x5B then
               (case skip_ws cs of
                  [] \<Rightarrow> None
                | d # ds \<Rightarrow>
                    if d = 0x5D then Some (JArr [], ds)
                    else map_option (\<lambda>(vs, r). (JArr vs, r)) (parse_elements n (d # ds)))
             else if c = 0x7B then
               (case skip_ws cs of
                  [] \<Rightarrow> None
                | d # ds \<Rightarrow>
                    if d = 0x7D then Some (JObj [], ds)
                    else map_option (\<lambda>(kvs, r). (JObj kvs, r)) (parse_members n (d # ds)))
             else map_option (\<lambda>(q, r). (JNum q, r)) (parse_number s)))"
| "parse_elements 0 s = None"
| "parse_elements (Suc n) s =
     (case parse_value n s of
        None \<Rightarrow> None
      | Some (v, r) \<Rightarrow>
          (case skip_ws r of
             [] \<Rightarrow> None
           | d # ds \<Rightarrow>
               if d = 0x2C then map_option (\<lambda>(vs, r'). (v # vs, r')) (parse_elements n (skip_ws ds))
               else if d = 0x5D then Some ([v], ds)
               else None))"
| "parse_members 0 s = None"
| "parse_members (Suc n) s =
     (case s of
        [] \<Rightarrow> None
      | c # cs \<Rightarrow>
          if c \<noteq> 0x22 then None
          else
            (case parse_string_chars cs of
               None \<Rightarrow> None
             | Some (k, r) \<Rightarrow>
                 (case skip_ws r of
                    [] \<Rightarrow> None
                  | d # ds \<Rightarrow>
                      if d \<noteq> 0x3A then None
                      else
                        (case parse_value n (skip_ws ds) of
                           None \<Rightarrow> None
                         | Some (v, r2) \<Rightarrow>
                             (case skip_ws r2 of
                                [] \<Rightarrow> None
                              | e # es \<Rightarrow>
                                  if e = 0x2C
                                  then map_option (\<lambda>(kvs, r'). ((k, v) # kvs, r')) (parse_members n (skip_ws es))
                                  else if e = 0x7D then Some ([(k, v)], es)
                                  else None)))))"

definition json_parse :: "jsstring \<Rightarrow> jsval option" where
  "json_parse s =
     (case parse_value (2 * length s + 2) (skip_ws s) of
        None \<Rightarrow> None
      | Some (v, r) \<Rightarrow> if skip_ws r = [] then Some v else None)"


section \<open>The suggestion resolver\<close>

text \<open>
  The process environment, as far as the resolver reads it. \<^verbatim>\<open>!process.env.OPENAI_API_KEY\<close>
  holds when the variable is unset or is the empty string.
\<close>

record env =
  OPENAI_API_KEY :: "jsstring option"

definition key_configured :: "env \<Rightarrow> bool" where
  "key_configured e = (case OPENAI_API_KEY e of None \<Rightarrow> False | Some k \<Rightarrow> k \<noteq> [])"

text \<open>
  One call of the external language-model API: it throws (transport or service
  failure, a missing module), or it returns a response in which
  \<^verbatim>\<open>response.choices[0].message.content\<close> is a string, or one in which that path holds
  no string, so that \<^verbatim>\<open>.trim()\<close> throws a \<open>TypeError\<close>. The API is a parameter of the
  model: a function from the user message to the outcome of the call.
\<close>

datatype ext_outcome =
    ExtThrows js_error
  | ExtNoText
  | ExtText jsstring

definition user_message :: "jsstring \<Rightarrow> jsstring" where
  "user_message content =
     str ''Analyze this LinkedIn content: '' @ [0x22] @ take 400 content @ [0x22]"

text \<open>
  The clean-up of the returned text, \<^verbatim>\<open>server.js\<close> lines 152 to 155: trim, delete
  every \<^verbatim>\<open>```json\<close> and then every \<^verbatim>\<open>```\<close>, each with one following newline if there is
  one, and trim again.
\<close>

definition cleaned_response :: "jsstring \<Rightarrow> jsstring" where
  "cleaned_response text =
     (let responseContent = js_trim text;
          responseContent =
            js_trim (replace_fence (str ''```'') (replace_fence (str ''```json'') responseContent))
      in responseContent)"

text \<open>A suggestion of the fallback generator as the object the resolver handles.\<close>

definition suggestion_object :: "suggestion \<Rightarrow> jsval" where
  "suggestion_object s = JObj [(str ''title'', title s), (str ''description'', description s)]"

text \<open>The callback of \<^verbatim>\<open>map\<close>, lines 171 to 174.\<close>

definition format_suggestion :: "jsval \<Rightarrow> js_error + suggestion" where
  "format_suggestion sug =
     (case get_member sug (str ''title'') of
        Inl e \<Rightarrow> Inl e
      | Inr t \<Rightarrow>
          (case get_member sug (str ''description'') of
             Inl e \<Rightarrow> Inl e
           | Inr d \<Rightarrow>
               Inr \<lparr>title = js_or t (JStr (str ''Professional Development'')),
                    description = js_or d (JStr (str ''Explore related opportunities on LinkedIn''))\<rparr>))"

text \<open>\<^verbatim>\<open>Array.prototype.map\<close> with a callback that may throw: the first throw ends it.\<close>

fun map_throwing :: "('a \<Rightarrow> js_error + 'b) \<Rightarrow> 'a list \<Rightarrow> js_error + 'b list" where
  "map_throwing f [] = Inr []"
| "map_throwing f (x # xs) =
     (case f x of
        Inl e \<Rightarrow> Inl e
      | Inr y \<Rightarrow> (case map_throwing f xs of Inl e \<Rightarrow> Inl e | Inr ys \<Rightarrow> Inr (y # ys)))"

fun is_array :: "jsval \<Rightarrow> bool" where
  "is_array (JArr xs) = True"
| "is_array v = False"

fun array_elements :: "jsval \<Rightarrow> jsval list" where
  "array_elements (JArr xs) = xs"
| "array_elements v = []"

text \<open>The body of the \<^verbatim>\<open>try\<close> block of \<^verbatim>\<open>analyzeWithOpenAI\<close>, lines 119 to 176.\<close>

definition analyze_try ::
  "runtime \<Rightarrow> (jsstring \<Rightarrow> ext_outcome) \<Rightarrow> jsstring \<Rightarrow> js_error + suggestion list" where
  "analyze_try rt openai content =
     (case openai (user_message content) of
        ExtThrows e \<Rightarrow> Inl e
      | ExtNoText \<Rightarrow>
          Inl (Error (str ''Cannot read properties of null (reading '' @ [0x27] @ str ''trim'' @ [0x27] @ str '')''))
      | ExtText text \<Rightarrow>
          (let responseContent = cleaned_response text;
               suggestions =
                 (case json_parse responseContent of
                    Some v \<Rightarrow> v
                  | None \<Rightarrow> JArr (map suggestion_object (generateFallbackSuggestions rt content)));
               suggestions =
                 (if \<not> is_array suggestions \<or> length (array_elements suggestions) = 0
                  then JArr (map suggestion_object (generateFallbackSuggestions rt content))
                  else suggestions)
           in map_throwing format_suggestion (take 2 (array_elements suggestions))))"

text \<open>
  \<^verbatim>\<open>analyzeWithOpenAI(content)\<close>, \<^verbatim>\<open>server.js\<close> lines 112 to 184. \<open>Inl\<close> is a throw to
  the caller, \<open>Inr\<close> the returned list.
\<close>

definition analyzeWithOpenAI ::
  "runtime \<Rightarrow> env \<Rightarrow> (jsstring \<Rightarrow> ext_outcome) \<Rightarrow> jsstring \<Rightarrow> js_error + suggestion list" where
  "analyzeWithOpenAI rt e openai content =
     (if \<not> key_configured e then Inr (generateFallbackSuggestions rt content)
      else
        (case analyze_try rt openai content of
           Inr suggestions \<Rightarrow> Inr suggestions
         | Inl error \<Rightarrow> Inr (generateFallbackSuggestions rt content)))"

text \<open>
  The repository holds a second, earlier copy of the server (\<^verbatim>\<open>src/unnamed/part_000\<close>).
  Its resolver, lines 69 to 139, differs in the credential check, which throws.
\<close>

definition analyzeWithOpenAI_part_000 ::
  "runtime \<Rightarrow> env \<Rightarrow> (jsstring \<Rightarrow> ext_outcome) \<Rightarrow> jsstring \<Rightarrow> js_error + suggestion list" where
  "analyzeWithOpenAI_part_000 rt e openai content =
     (if \<not> key_configured e then Inl (Error (str ''OpenAI API key not configured''))
      else
        (case analyze_try rt openai content of
           Inr suggestions \<Rightarrow> Inr suggestions
         | Inl error \<Rightarrow> Inr (generateFallbackSuggestions rt content)))"

section \<open>The request handler\<close>

text \<open>
  The response of \<^verbatim>\<open>POST /api/analyze-content\<close>: the status and the JSON body, either
  \<^verbatim>\<open>{ error }\<close> or \<^verbatim>\<open>{ suggestions, timestamp, contentLength }\<close>. The timestamp is the
  clock's and is left out. \<open>resolver_calls\<close> records the arguments with which the
  handler invoked the resolver.
\<close>

datatype response_body =
    ErrorBody jsstring
  | AnalysisBody "suggestion list" nat

record response =
  status :: nat
  body :: response_body

record handled =
  reply :: response
  resolver_calls :: "jsstring list"

text \<open>
  \<^verbatim>\<open>content.length < 10\<close> for a truthy \<open>content\<close>. A string and an array have a length;
  a number and a boolean have none, and \<^verbatim>\<open>undefined < 10\<close> is false; an object has
  the \<open>length\<close> member it was sent with, if any.
\<close>

fun length_lt_10 :: "runtime \<Rightarrow> jsval \<Rightarrow> bool" where
  "length_lt_10 rt (JStr s) = (length s < 10)"
| "length_lt_10 rt (JArr xs) = (length xs < 10)"
| "length_lt_10 rt (JObj kvs) =
     (case map_of (rev kvs) (str ''length'') of None \<Rightarrow> False | Some v \<Rightarrow> lessThan10 rt v)"
| "length_lt_10 rt v = False"

text \<open>\<^verbatim>\<open>const { content } = req.body\<close>.\<close>

definition destructure_content :: "jsval \<Rightarrow> js_error + jsval" where
  "destructure_content req_body =
     (case req_body of
        JUndefined \<Rightarrow>
          Inl (Error (str ''Cannot destructure property '' @ [0x27] @ str ''content'' @ [0x27] @ str '' of ''
                 @ [0x27] @ str ''req.body'' @ [0x27] @ str '' as it is undefined.''))
      | JNull \<Rightarrow>
          Inl (Error (str ''Cannot destructure property '' @ [0x27] @ str ''content'' @ [0x27] @ str '' of ''
                 @ [0x27] @ str ''req.body'' @ [0x27] @ str '' as it is null.''))
      | JObj kvs \<Rightarrow> Inr (obj_member kvs (str ''content''))
      | _ \<Rightarrow> Inr JUndefined)"

text \<open>The \<^verbatim>\<open>catch\<close> block of the handler, lines 98 to 108.\<close>

definition analysis_error_response :: "js_error \<Rightarrow> response" where
  "analysis_error_response error =
     (if js_includes (message error) (str ''API key'')
      then \<lparr>status = 500, body = ErrorBody (str ''Service configuration error'')\<rparr>
      else if js_includes (message error) (str ''rate limit'')
      then \<lparr>status = 429, body = ErrorBody (str ''Service temporarily busy, please try again'')\<rparr>
      else \<lparr>status = 500, body = ErrorBody (str ''Analysis temporarily unavailable'')\<rparr>)"

text \<open>
  The \<^verbatim>\<open>try\<close> block of the handler, lines 79 to 96. The preview logged at line 87
  calls \<^verbatim>\<open>content.substring(0, 100)\<close>, which only a string has: on any other value it
  throws before the resolver is reached.
\<close>

definition analyze_content_try ::
  "runtime \<Rightarrow> env \<Rightarrow> (jsstring \<Rightarrow> ext_outcome) \<Rightarrow> jsval \<Rightarrow> jsstring list \<times> (js_error + response)" where
  "analyze_content_try rt e openai req_body =
     (case destructure_content req_body of
        Inl err \<Rightarrow> ([], Inl err)
      | Inr content \<Rightarrow>
          if \<not> truthy content \<or> length_lt_10 rt content
          then ([], Inr \<lparr>status = 400,
                  body = ErrorBody (str ''Content is required and must be at least 10 characters long'')\<rparr>)
          else
            (case content of
               JStr s \<Rightarrow>
                 (case analyzeWithOpenAI rt e openai s of
                    Inl err \<Rightarrow> ([s], Inl err)
                  | Inr suggestions \<Rightarrow>
                      ([s], Inr \<lparr>status = 200, body = AnalysisBody suggestions (length s)\<rparr>))
             | _ \<Rightarrow> ([], Inl (Error (str ''content.substring is not a function'')))))"

text \<open>The handler of \<^verbatim>\<open>POST /api/analyze-content\<close>, lines 77 to 109.\<close>

definition analyze_content ::
  "runtime \<Rightarrow> env \<Rightarrow> (jsstring \<Rightarrow> ext_outcome) \<Rightarrow> jsval \<Rightarrow> handled" where
  "analyze_content rt e openai req_body =
     (case analyze_content_try rt e openai req_body of
        (calls, Inr res) \<Rightarrow> \<lparr>reply = res, resolver_calls = calls\<rparr>
      | (calls, Inl error) \<Rightarrow> \<lparr>reply = analysis_error_response error, resolver_calls = calls\<rparr>)"

section \<open>Notions used in the statements\<close>

fun is_string :: "jsval \<Rightarrow> bool" where
  "is_string (JStr s) = True"
| "is_string v = False"

text \<open>A value without \<open>undefined\<close> inside, as every value of a JSON text is.\<close>

fun defined :: "jsval \<Rightarrow> bool" where
  "defined JUndefined = False"
| "defined (JArr xs) = list_all defined xs"
| "defined (JObj kvs) = list_all (\<lambda>kv. defined (snd kv)) kvs"
| "defined v = True"

text \<open>
  The value a read of the member \<open>k\<close> yields on a value that is neither \<open>null\<close> nor
  \<open>undefined\<close>, and the record the normalization makes of such an element: a member
  that is missing or falsy gives way to the default text, any other value is kept.
\<close>

definition member_value :: "jsval \<Rightarrow> jsstring \<Rightarrow> jsval" where
  "member_value v k = (case v of JObj kvs \<Rightarrow> obj_member kvs k | _ \<Rightarrow> JUndefined)"

definition normalized :: "jsval \<Rightarrow> suggestion" where
  "normalized x =
     \<lparr>title =
        (if truthy (member_value x (str ''title'')) then member_value x (str ''title'')
         else JStr (str ''Professional Development'')),
      description =
        (if truthy (member_value x (str ''description'')) then member_value x (str ''description'')
         else JStr (str ''Explore related opportunities on LinkedIn''))\<rparr>"

text \<open>Environments and API behaviours for the examples.\<close>

definition no_credential :: env where
  "no_credential = \<lparr>OPENAI_API_KEY = None\<rparr>"

definition with_credential :: env where
  "with_credential = \<lparr>OPENAI_API_KEY = Some (str ''sk-test'')\<rparr>"

definition api_returns :: "jsstring \<Rightarrow> jsstring \<Rightarrow> ext_outcome" where
  "api_returns text msg = ExtText text"

definition api_fails :: "jsstring \<Rightarrow> ext_outcome" where
  "api_fails msg = ExtThrows (Error (str ''Connection error.''))"

definition fenced_example :: jsstring where
  \<open>fenced_example = str ''```json'' @ [0xA] @ str ''[{"title":"X"}]'' @ [0xA] @ str ''```''\<close>

section \<open>Facts about the JSON parser\<close>

text \<open>A value read by the parser holds no \<open>undefined\<close>.\<close>

lemma parsed_defined:
  "(\<forall>v r. parse_value n s = Some (v, r) \<longrightarrow> defined v) \<and>
   (\<forall>vs r. parse_elements n s = Some (vs, r) \<longrightarrow> list_all defined vs) \<and>
   (\<forall>kvs r. parse_members n s = Some (kvs, r) \<longrightarrow> list_all (\<lambda>kv. defined (snd kv)) kvs)"
proof (induction n arbitrary: s)
  case 0
  show ?case by simp
next
  case (Suc n)
  then have IHv: "\<And>s v r. parse_value n s = Some (v, r) \<Longrightarrow> defined v"
    and IHe: "\<And>s vs r. parse_elements n s = Some (vs, r) \<Longrightarrow> list_all defined vs"
    and IHm: "\<And>s kvs r. parse_members n s = Some (kvs, r) \<Longrightarrow> list_all (\<lambda>kv. defined (snd kv)) kvs"
    by blast+
  have v: "defined v" if "parse_value (Suc n) s = Some (v, r)" for v r
    using that
    by (auto simp: Let_def dest: IHe IHm split: if_splits list.splits option.splits)
  have e: "list_all defined vs" if "parse_elements (Suc n) s = Some (vs, r)" for vs r
    using that
    by (auto dest: IHv IHe split: if_splits list.splits option.splits prod.splits)
  have m: "list_all (\<lambda>kv. defined (snd kv)) kvs" if "parse_members (Suc n) s = Some (kvs, r)" for kvs r
    using that
    by (auto dest: IHv IHm split: if_splits list.splits option.splits prod.splits)
  from v e m show ?case by blast
qed

lemma json_parse_defined: "json_parse s = Some v \<Longrightarrow> defined v"
  using parsed_defined [of "2 * length s + 2" "skip_ws s"]
  by (auto simp: json_parse_def split: option.splits if_splits)

text \<open>
  Every parser reads at least one character when it succeeds, so the bound on the calls
  is never what makes \<open>json_parse\<close> fail: a parse that succeeds with any bound succeeds
  with the one \<open>json_parse\<close> uses.
\<close>

lemma length_skip_ws: "length (skip_ws s) \<le> length s"
  by (simp add: skip_ws_def length_dropWhile_le)

lemma skip_ws_Cons: "skip_ws s = d # ds \<Longrightarrow> length ds < length s"
  using length_skip_ws [of s] by simp

lemma skip_ws_less: "length r < length (skip_ws s) \<Longrightarrow> length r < length s"
  using length_skip_ws [of s] by simp

lemma parse_string_chars_consumes:
  "parse_string_chars s = Some (t, r) \<Longrightarrow> length r < length s"
proof (induction s arbitrary: t rule: parse_string_chars.induct)
  case 1
  then show ?case by simp
next
  case (2 c cs)
  from "2.prems" "2.IH" show ?case
    by (fastforce simp: cons_result_def split: if_splits list.splits option.splits)
qed

lemma parse_number_consumes:
  assumes "parse_number s = Some (q, r)"
  shows "length r < length s"
proof -
  have i: "length r1 < length u" if "parse_int_part u = Some (n, r1)" for u n r1
    using that length_dropWhile_le [of is_digit u]
    by (auto simp: parse_int_part_def split: list.splits if_splits)
      (metis length_dropWhile_le less_Suc_eq_le)
  have f: "length r2 \<le> length u" if "parse_frac_part u = Some (x, r2)" for u x r2
    using that length_dropWhile_le [of is_digit "tl u"]
    by (auto simp: parse_frac_part_def Let_def split: list.splits if_splits)
  have d: "length r3 \<le> length u" if "parse_exp_digits b u = Some (x, r3)" for b u x r3
    using that length_dropWhile_le [of is_digit u]
    by (auto simp: parse_exp_digits_def Let_def split: if_splits)
  have e: "length r3 \<le> length u" if "parse_exp_part u = Some (x, r3)" for u x r3
    using that
    by (auto simp: parse_exp_part_def split: list.splits if_splits dest!: d)
  have u: "length r3 < length u" if "parse_unsigned u = Some (x, r3)" for u x r3
    using that
    by (auto simp: parse_unsigned_def split: option.splits prod.splits dest!: i f e)
  from assms show ?thesis
    by (auto simp: parse_number_def split: list.splits if_splits dest!: u)
qed

lemma parsers_consume:
  "(\<forall>v r. parse_value n s = Some (v, r) \<longrightarrow> length r < length s) \<and>
   (\<forall>vs r. parse_elements n s = Some (vs, r) \<longrightarrow> length r < length s) \<and>
   (\<forall>kvs r. parse_members n s = Some (kvs, r) \<longrightarrow> length r < length s)"
proof (induction n arbitrary: s)
  case 0
  show ?case by simp
next
  case (Suc n)
  then have IHv: "\<And>s v r. parse_value n s = Some (v, r) \<Longrightarrow> length r < length s"
    and IHe: "\<And>s vs r. parse_elements n s = Some (vs, r) \<Longrightarrow> length r < length s"
    and IHm: "\<And>s kvs r. parse_members n s = Some (kvs, r) \<Longrightarrow> length r < length s"
    by blast+
  have lit: "length (drop k s) < length s" if "starts_with (str w) s" and "length w = k" and "0 < k" for w k
  proof -
    from that have "length (take k s) = k"
      by (simp add: starts_with_def str_def)
    then have "k \<le> length s" by simp
    with that(3) show ?thesis by simp
  qed
  have v: "length r < length s" if "parse_value (Suc n) s = Some (v, r)" for v r
  proof (cases s)
    case Nil
    with that show ?thesis
      by (simp add: starts_with_def str_def)
  next
    case (Cons c cs)
    have ws: "length (skip_ws cs) \<le> length cs" by (rule length_skip_ws)
    from that Cons ws show ?thesis
      using lit [of "''null''" 4] lit [of "''true''" 4] lit [of "''false''" 5]
        parse_number_consumes [of s]
      by (auto split: if_splits list.splits option.splits
          dest!: IHe IHm parse_string_chars_consumes)
  qed
  have e: "length r < length s" if "parse_elements (Suc n) s = Some (vs, r)" for vs r
    using that
    by (auto split: if_splits list.splits option.splits prod.splits
        dest!: IHv IHe skip_ws_Cons skip_ws_less)
  have m: "length r < length s" if "parse_members (Suc n) s = Some (kvs, r)" for kvs r
    using that
    by (auto split: if_splits list.splits option.splits prod.splits
        dest!: IHv IHm parse_string_chars_consumes skip_ws_Cons skip_ws_less)
  from v e m show ?case by blast
qed

lemma fuel_enough:
  "(\<forall>res f. parse_value m s = Some res \<longrightarrow> 2 * length s \<le> f \<longrightarrow> parse_value f s = Some res) \<and>
   (\<forall>res f. parse_elements m s = Some res \<longrightarrow> 2 * length s + 1 \<le> f \<longrightarrow> parse_elements f s = Some res) \<and>
   (\<forall>res f. parse_members m s = Some res \<longrightarrow> 2 * length s + 1 \<le> f \<longrightarrow> parse_members f s = Some res)"
proof (induction m arbitrary: s)
  case 0
  show ?case by simp
next
  case (Suc m)
  then have IHv: "\<And>s res f. parse_value m s = Some res \<Longrightarrow> 2 * length s \<le> f \<Longrightarrow> parse_value f s = Some res"
    and IHe: "\<And>s res f. parse_elements m s = Some res \<Longrightarrow> 2 * length s + 1 \<le> f \<Longrightarrow> parse_elements f s = Some res"
    and IHm: "\<And>s res f. parse_members m s = Some res \<Longrightarrow> 2 * length s + 1 \<le> f \<Longrightarrow> parse_members f s = Some res"
    by blast+
  have v: "parse_value f s = Some res"
    if p: "parse_value (Suc m) s = Some res" and f: "2 * length s \<le> f" for res f
  proof (cases s)
    case Nil
    with p show ?thesis by (simp add: starts_with_def str_def)
  next
    case (Cons c cs)
    with f obtain f' where f': "f = Suc f'" and bound: "2 * length cs + 1 \<le> f'"
      by (cases f) auto
    show ?thesis
    proof (cases "skip_ws cs")
      case Nil
      with p Cons show ?thesis
        unfolding f' by (auto split: if_splits)
    next
      case sk: (Cons d ds)
      have len: "2 * length (d # ds) + 1 \<le> f'"
        using length_skip_ws [of cs] bound unfolding sk by simp
      have E: "parse_elements f' (d # ds) = Some res'" if "parse_elements m (d # ds) = Some res'" for res'
        using IHe [OF that len] .
      have M: "parse_members f' (d # ds) = Some res'" if "parse_members m (d # ds) = Some res'" for res'
        using IHm [OF that len] .
      from p Cons sk show ?thesis
        unfolding f' by (auto split: if_splits dest!: E M)
    qed
  qed
  have e: "parse_elements f s = Some res"
    if p: "parse_elements (Suc m) s = Some res" and f: "2 * length s + 1 \<le> f" for res f
  proof -
    from f obtain f' where f': "f = Suc f'" and bound: "2 * length s \<le> f'"
      by (cases f) auto
    from p obtain v r where pv: "parse_value m s = Some (v, r)"
      by (auto split: option.splits)
    from IHv [OF pv bound] have pv': "parse_value f' s = Some (v, r)" .
    from pv parsers_consume [of m s] have lr: "length r < length s" by simp
    from p pv obtain d ds where sk: "skip_ws r = d # ds"
      by (auto split: list.splits)
    have len: "2 * length (skip_ws ds) + 1 \<le> f'"
      using skip_ws_Cons [OF sk] length_skip_ws [of ds] lr bound by simp
    have E: "parse_elements f' (skip_ws ds) = Some res'" if "parse_elements m (skip_ws ds) = Some res'" for res'
      using IHe [OF that len] .
    from p pv sk have "parse_elements (Suc f') s = Some res"
      using pv' by (auto split: if_splits dest!: E)
    then show ?thesis unfolding f' .
  qed
  have m: "parse_members f s = Some res"
    if p: "parse_members (Suc m) s = Some res" and f: "2 * length s + 1 \<le> f" for res f
  proof -
    from f obtain f' where f': "f = Suc f'" and bound: "2 * length s \<le> f'"
      by (cases f) auto
    from p obtain c cs where s: "s = c # cs" and c: "c = 0x22"
      by (cases s) (auto split: if_splits)
    from p s c obtain k r where ps: "parse_string_chars cs = Some (k, r)"
      by (auto split: option.splits)
    from parse_string_chars_consumes [OF ps] have lr: "length r < length cs" .
    from p s c ps obtain d ds where sk: "skip_ws r = d # ds" and d: "d = 0x3A"
      by (auto split: list.splits if_splits)
    from p s c ps sk d obtain v r2 where pv: "parse_value m (skip_ws ds) = Some (v, r2)"
      by (auto split: option.splits)
    have l1: "length (skip_ws ds) + 2 \<le> length s"
      using skip_ws_Cons [OF sk] length_skip_ws [of ds] lr s by simp
    with bound have "2 * length (skip_ws ds) \<le> f'" by simp
    from IHv [OF pv this] have pv': "parse_value f' (skip_ws ds) = Some (v, r2)" .
    from pv parsers_consume [of m "skip_ws ds"] have lr2: "length r2 < length (skip_ws ds)" by simp
    from p s c ps sk d pv obtain e es where sk2: "skip_ws r2 = e # es"
      by (auto split: list.splits)
    have len: "2 * length (skip_ws es) + 1 \<le> f'"
      using skip_ws_Cons [OF sk2] length_skip_ws [of es] lr2 l1 bound by simp
    have M: "parse_members f' (skip_ws es) = Some res'" if "parse_members m (skip_ws es) = Some res'" for res'
      using IHm [OF that len] .
    from p s c ps sk d pv sk2 have "parse_members (Suc f') s = Some res"
      using pv' by (auto split: if_splits dest!: M)
    then show ?thesis unfolding f' .
  qed
  from v e m show ?case by blast
qed

lemma json_parse_any_fuel:
  assumes "parse_value m (skip_ws s) = Some (v, r)"
  shows "parse_value (2 * length s + 2) (skip_ws s) = Some (v, r)"
proof -
  have "2 * length (skip_ws s) \<le> 2 * length s + 2"
    using length_skip_ws [of s] by simp
  with fuel_enough [of m "skip_ws s"] assms show ?thesis by blast
qed

lemma json_parse_bound_free:
  assumes "parse_value m (skip_ws s) = Some (v, r)" and "skip_ws r = []"
  shows "json_parse s = Some v"
  using json_parse_any_fuel [OF assms(1)] assms(2) by (simp add: json_parse_def)

section \<open>Auxiliary facts\<close>

lemma str_eq_Nil: "str s = [] \<longleftrightarrow> s = []"
  by (simp add: str_def)

lemma collect_four:
  fixes a b c d :: bool
  shows "(let s = [];
           s = (if a then s @ [s1] else s);
           s = (if b then s @ [s2] else s);
           s = (if c then s @ [s3] else s);
           s = (if d then s @ [s4] else s);
           s = (if length s = 0 then s @ [d1, d2] else s)
       in take 2 s) =
      (if map snd (filter fst [(a, s1), (b, s2), (c, s3), (d, s4)]) = [] then [d1, d2]
       else take 2 (map snd (filter fst [(a, s1), (b, s2), (c, s3), (d, s4)])))"
  by (cases a; cases b; cases c; cases d; simp)

lemma matched_families_eq:
  "matched_families lc =
     map snd (filter fst
       [(js_includes lc (str ''data'') \<or> js_includes lc (str ''analytics'') \<or> js_includes lc (str ''analysis''),
         snd (keyword_families ! 0)),
        (js_includes lc (str ''marketing'') \<or> js_includes lc (str ''brand'') \<or> js_includes lc (str ''campaign''),
         snd (keyword_families ! 1)),
        (js_includes lc (str ''leadership'') \<or> js_includes lc (str ''management'') \<or> js_includes lc (str ''team''),
         snd (keyword_families ! 2)),
        (js_includes lc (str ''tech'') \<or> js_includes lc (str ''software'') \<or> js_includes lc (str ''developer''),
         snd (keyword_families ! 3))])"
  unfolding matched_families_def keyword_families_def family_matches_def
  by (simp del: js_includes.simps)

lemma generateFallbackSuggestions_refines:
  "generateFallbackSuggestions rt content =
     (if matched_families (toLowerCase rt content) = [] then default_suggestions
      else take 2 (matched_families (toLowerCase rt content)))"
  unfolding matched_families_eq
  unfolding generateFallbackSuggestions_def default_suggestions_def
  apply (subst collect_four)
  apply (simp only: keyword_families_def nth_Cons_0 nth_Cons_Suc snd_conv numeral_nat One_nat_def Let_def)
  done

lemma fallback_nonempty: "generateFallbackSuggestions rt content \<noteq> []"
  by (simp add: generateFallbackSuggestions_refines default_suggestions_def take_eq_Nil)

lemma fallback_take_2:
  "take 2 (generateFallbackSuggestions rt content) = generateFallbackSuggestions rt content"
  by (simp add: generateFallbackSuggestions_refines default_suggestions_def)

lemma fallback_members:
  "set (generateFallbackSuggestions rt content) \<subseteq> snd ` set keyword_families \<union> set default_suggestions"
proof -
  have "set (take 2 (matched_families lc)) \<subseteq> snd ` set keyword_families" for lc
    using set_take_subset [of 2 "matched_families lc"] by (auto simp: matched_families_def)
  then show ?thesis
    by (auto simp: generateFallbackSuggestions_refines)
qed

lemma member_names_differ: "str ''description'' \<noteq> str ''title''"
  by (simp add: str_def)

lemma format_suggestion_object:
  assumes "truthy (title s)" and "truthy (description s)"
  shows "format_suggestion (suggestion_object s) = Inr s"
  using assms member_names_differ
  by (cases s) (simp add: format_suggestion_def suggestion_object_def get_member_def obj_member_def js_or_def)

lemma fixed_suggestions_truthy:
  assumes "s \<in> snd ` set keyword_families \<union> set default_suggestions"
  shows "truthy (title s) \<and> truthy (description s)"
  using assms by (auto simp: keyword_families_def default_suggestions_def str_eq_Nil)

lemma map_throwing_map:
  assumes "\<And>x. x \<in> set xs \<Longrightarrow> f (g x) = Inr x"
  shows "map_throwing f (map g xs) = Inr xs"
  using assms by (induction xs) simp_all

lemma format_fallback:
  "map_throwing format_suggestion
     (take 2 (map suggestion_object (generateFallbackSuggestions rt content))) =
   Inr (generateFallbackSuggestions rt content)"
proof -
  have "format_suggestion (suggestion_object s) = Inr s"
    if "s \<in> set (generateFallbackSuggestions rt content)" for s
    using that fallback_members [of rt content] fixed_suggestions_truthy [of s]
    by (auto intro: format_suggestion_object)
  then have "map_throwing format_suggestion (map suggestion_object (generateFallbackSuggestions rt content)) =
      Inr (generateFallbackSuggestions rt content)"
    by (rule map_throwing_map)
  then show ?thesis
    by (simp add: take_map fallback_take_2)
qed

text \<open>What the resolver returns once a credential is configured and the API returned text.\<close>

lemma analyzeWithOpenAI_text:
  assumes "key_configured e" and "openai (user_message content) = ExtText answer"
  shows "analyzeWithOpenAI rt e openai content =
     (case
        (case json_parse (cleaned_response answer) of
           None \<Rightarrow> Inr (generateFallbackSuggestions rt content)
         | Some v \<Rightarrow>
             if \<not> is_array v \<or> array_elements v = []
             then Inr (generateFallbackSuggestions rt content)
             else map_throwing format_suggestion (take 2 (array_elements v)))
      of Inl error \<Rightarrow> Inr (generateFallbackSuggestions rt content)
       | Inr suggestions \<Rightarrow> Inr suggestions)"
  using assms fallback_nonempty [of rt content]
  by (simp add: analyzeWithOpenAI_def analyze_try_def Let_def format_fallback split: option.splits)

section \<open>Evaluated examples\<close>

lemma hello_world_fallback:
  "generateFallbackSuggestions ascii_runtime (str ''hello world'') = default_suggestions"
  by code_simp

lemma hello_world_length: "length (str ''hello world'') = 11"
  by (simp add: str_def)

lemma no_credential_unconfigured: "\<not> key_configured no_credential"
  by (simp add: key_configured_def no_credential_def)

lemma with_credential_configured: "key_configured with_credential"
  by (simp add: key_configured_def with_credential_def str_def)

lemma empty_array_parses: "json_parse (cleaned_response (str ''[]'')) = Some (JArr [])"
  by code_simp

lemma fenced_example_cleaned: \<open>cleaned_response fenced_example = str ''[{"title":"X"}]''\<close>
  by code_simp

lemma fenced_example_parses:
  \<open>json_parse (str ''[{"title":"X"}]'') = Some (JArr [JObj [(str ''title'', JStr (str ''X''))]])\<close>
  by code_simp

lemma not_json_fails: "json_parse (cleaned_response (str ''Sorry, I cannot help with that.'')) = None"
  by code_simp

lemma number_title_parses:
  \<open>json_parse (cleaned_response (str ''[{"title":5}]'')) = Some (JArr [JObj [(str ''title'', JNum 5)]])\<close>
  by code_simp

section \<open>The resolver without a credential\<close>

text \<open>
  C1. For every content of at least 10 characters, when no credential is configured the
  resolver of \<^verbatim>\<open>server.js\<close> returns the fallback generator's result and does not throw,
  and the handler answers 200 with that list: the missing credential does not reach the
  caller as a failure.
\<close>

theorem missing_credential_falls_back:
  assumes "\<not> key_configured e" and "10 \<le> length content"
    and "obj_member kvs (str ''content'') = JStr content"
  shows "analyzeWithOpenAI rt e openai content = Inr (generateFallbackSuggestions rt content) \<and>
         analyze_content rt e openai (JObj kvs) =
           \<lparr>reply = \<lparr>status = 200,
                     body = AnalysisBody (generateFallbackSuggestions rt content) (length content)\<rparr>,
            resolver_calls = [content]\<rparr>"
proof -
  have r: "analyzeWithOpenAI rt e openai content = Inr (generateFallbackSuggestions rt content)"
    using assms(1) by (simp add: analyzeWithOpenAI_def)
  have "content \<noteq> []" using assms(2) by auto
  with assms(2,3) r show ?thesis
    by (simp add: analyze_content_def analyze_content_try_def destructure_content_def)
qed

theorem missing_credential_falls_back_witness:
  "analyzeWithOpenAI ascii_runtime no_credential api_fails (str ''hello world'') = Inr default_suggestions \<and>
   analyze_content ascii_runtime no_credential api_fails (JObj [(str ''content'', JStr (str ''hello world''))]) =
     \<lparr>reply = \<lparr>status = 200, body = AnalysisBody default_suggestions 11\<rparr>,
      resolver_calls = [str ''hello world'']\<rparr>"
proof -
  have m: "obj_member [(str ''content'', JStr (str ''hello world''))] (str ''content'') = JStr (str ''hello world'')"
    by (simp add: obj_member_def)
  have l: "10 \<le> length (str ''hello world'')"
    by (simp add: hello_world_length)
  show ?thesis
    using missing_credential_falls_back [OF no_credential_unconfigured l m, of ascii_runtime api_fails]
    by (simp add: hello_world_fallback hello_world_length)
qed

text \<open>
  The earlier copy of the server differs here: without a credential its resolver throws,
  and the handler's error path answers 500.
\<close>

lemma part_000_missing_credential_throws:
  assumes "\<not> key_configured e"
  shows "analyzeWithOpenAI_part_000 rt e openai content = Inl (Error (str ''OpenAI API key not configured'')) \<and>
         analysis_error_response (Error (str ''OpenAI API key not configured'')) =
           \<lparr>status = 500, body = ErrorBody (str ''Service configuration error'')\<rparr>"
proof -
  have "js_includes (str ''OpenAI API key not configured'') (str ''API key'')"
    by code_simp
  with assms show ?thesis
    by (simp add: analyzeWithOpenAI_part_000_def analysis_error_response_def)
qed

section \<open>An empty array from the API\<close>

text \<open>
  C2, as the code has it. When the API returns text that parses as an empty array, the
  test \<^verbatim>\<open>suggestions.length === 0\<close> replaces it by the fallback generator's result, so
  the resolver returns that list, which is not empty.
\<close>

theorem empty_array_falls_back:
  assumes "key_configured e" and "openai (user_message content) = ExtText answer"
    and "json_parse (cleaned_response answer) = Some (JArr [])"
  shows "analyzeWithOpenAI rt e openai content = Inr (generateFallbackSuggestions rt content) \<and>
         analyzeWithOpenAI rt e openai content \<noteq> Inr []"
  using assms fallback_nonempty [of rt content]
  by (simp add: analyzeWithOpenAI_text)

theorem empty_array_falls_back_witness:
  "analyzeWithOpenAI ascii_runtime with_credential (api_returns (str ''[]'')) (str ''hello world'') =
     Inr default_suggestions"
  using empty_array_falls_back [OF with_credential_configured _ empty_array_parses,
      of "api_returns (str ''[]'')" "str ''hello world''" ascii_runtime]
  by (simp add: api_returns_def hello_world_fallback)

text \<open>The claim as the specification states it fails: the list returned is not empty.\<close>

theorem empty_array_counterexample:
  "json_parse (cleaned_response (str ''[]'')) = Some (JArr []) \<and>
   analyzeWithOpenAI ascii_runtime with_credential (api_returns (str ''[]'')) (str ''hello world'') \<noteq> Inr []"
proof -
  have "analyzeWithOpenAI ascii_runtime with_credential (api_returns (str ''[]'')) (str ''hello world'') =
      Inr (generateFallbackSuggestions ascii_runtime (str ''hello world''))"
    by (simp add: analyzeWithOpenAI_text [OF with_credential_configured, of _ _ "str ''[]''"]
        api_returns_def empty_array_parses)
  then show ?thesis
    by (simp add: empty_array_parses hello_world_fallback default_suggestions_def)
qed

section \<open>Validation of the request\<close>

text \<open>
  C3. When the body has no \<open>content\<close> member, or its \<open>content\<close> is a string of fewer
  than 10 code units, the handler answers 400 with the validation error and does not
  invoke the resolver.
\<close>

theorem short_content_rejected:
  assumes "str ''content'' \<notin> fst ` set kvs \<or>
           (\<exists>s. obj_member kvs (str ''content'') = JStr s \<and> length s < 10)"
  shows "analyze_content rt e openai (JObj kvs) =
           \<lparr>reply = \<lparr>status = 400,
                     body = ErrorBody (str ''Content is required and must be at least 10 characters long'')\<rparr>,
            resolver_calls = []\<rparr>"
proof -
  have absent: "obj_member kvs (str ''content'') = JUndefined" if "str ''content'' \<notin> fst ` set kvs"
  proof -
    from that have "map_of (rev kvs) (str ''content'') = None"
      by (simp add: map_of_eq_None_iff)
    then show ?thesis by (simp add: obj_member_def)
  qed
  from assms have "\<not> truthy (obj_member kvs (str ''content'')) \<or>
      length_lt_10 rt (obj_member kvs (str ''content''))"
    using absent by auto
  then show ?thesis
    by (auto simp: analyze_content_def analyze_content_try_def destructure_content_def)
qed

theorem short_content_rejected_witness:
  "analyze_content ascii_runtime with_credential (api_returns (str ''[]'')) (JObj []) =
     \<lparr>reply = \<lparr>status = 400,
               body = ErrorBody (str ''Content is required and must be at least 10 characters long'')\<rparr>,
      resolver_calls = []\<rparr> \<and>
   analyze_content ascii_runtime with_credential (api_returns (str ''[]''))
       (JObj [(str ''content'', JStr (str ''too short''))]) =
     \<lparr>reply = \<lparr>status = 400,
               body = ErrorBody (str ''Content is required and must be at least 10 characters long'')\<rparr>,
      resolver_calls = []\<rparr>"
proof -
  have a: "str ''content'' \<notin> fst ` set ([] :: (jsstring \<times> jsval) list) \<or>
      (\<exists>s. obj_member [] (str ''content'') = JStr s \<and> length s < 10)"
    by simp
  have "obj_member [(str ''content'', JStr (str ''too short''))] (str ''content'') = JStr (str ''too short'') \<and>
      length (str ''too short'') < 10"
    by (simp add: obj_member_def str_def)
  then have b: "str ''content'' \<notin> fst ` set [(str ''content'', JStr (str ''too short''))] \<or>
      (\<exists>s. obj_member [(str ''content'', JStr (str ''too short''))] (str ''content'') = JStr s \<and> length s < 10)"
    by blast
  show ?thesis
    using short_content_rejected [OF a, of ascii_runtime with_credential "api_returns (str ''[]'')"]
      short_content_rejected [OF b, of ascii_runtime with_credential "api_returns (str ''[]'')"]
    by simp
qed

section \<open>The fallback generator: defaults and precedence\<close>

lemma all_keywords_eq:
  "all_keywords =
     [str ''data'', str ''analytics'', str ''analysis'',
      str ''marketing'', str ''brand'', str ''campaign'',
      str ''leadership'', str ''management'', str ''team'',
      str ''tech'', str ''software'', str ''developer'']"
  by (simp add: all_keywords_def keyword_families_def)

text \<open>
  C4. When the lower-cased content contains none of the twelve keywords, the fallback
  generator returns exactly the two default suggestions, "Professional Development" and
  then "Network Growth".
\<close>

theorem no_keyword_gives_defaults:
  assumes "\<forall>k \<in> set all_keywords. \<not> js_includes (toLowerCase rt content) k"
  shows "generateFallbackSuggestions rt content =
           [\<lparr>title = JStr (str ''Professional Development''),
             description = JStr (str ''Discover learning opportunities related to this topic'')\<rparr>,
            \<lparr>title = JStr (str ''Network Growth''),
             description = JStr (str ''Connect with professionals in your field'')\<rparr>] \<and>
         map title (generateFallbackSuggestions rt content) =
           [JStr (str ''Professional Development''), JStr (str ''Network Growth'')]"
proof -
  from assms have "matched_families (toLowerCase rt content) = []"
    unfolding all_keywords_eq matched_families_eq by (simp del: js_includes.simps)
  then show ?thesis
    by (simp add: generateFallbackSuggestions_refines default_suggestions_def)
qed

theorem no_keyword_gives_defaults_witness:
  "map title (generateFallbackSuggestions ascii_runtime (str ''Hello World, nice to meet you'')) =
     [JStr (str ''Professional Development''), JStr (str ''Network Growth'')]"
proof -
  have "list_all (\<lambda>k. \<not> js_includes (toLowerCase ascii_runtime (str ''Hello World, nice to meet you'')) k)
      all_keywords"
    by code_simp
  then have "\<forall>k \<in> set all_keywords.
      \<not> js_includes (toLowerCase ascii_runtime (str ''Hello World, nice to meet you'')) k"
    by (simp add: list_all_iff)
  from no_keyword_gives_defaults [OF this] show ?thesis
    by simp
qed

text \<open>
  C5. The fallback generator collects the fixed suggestion of every matched family in the
  order data, marketing, leadership, tech, and keeps at most the first two of them (the
  two defaults stand in when no family matches); when three or more families match, the
  result is exactly the suggestions of the first two matching families.
\<close>

theorem matched_families_truncated:
  "generateFallbackSuggestions rt content =
     (if matched_families (toLowerCase rt content) = [] then default_suggestions
      else take 2 (matched_families (toLowerCase rt content))) \<and>
   length (generateFallbackSuggestions rt content) \<le> 2 \<and>
   (3 \<le> length (matched_families (toLowerCase rt content)) \<longrightarrow>
      generateFallbackSuggestions rt content =
        [matched_families (toLowerCase rt content) ! 0, matched_families (toLowerCase rt content) ! 1])"
proof -
  have "take 2 xs = [xs ! 0, xs ! 1]" if "3 \<le> length xs" for xs :: "suggestion list"
  proof (cases xs)
    case Nil
    with that show ?thesis by simp
  next
    case (Cons x ys)
    with that show ?thesis by (cases ys) (simp_all add: numeral_2_eq_2)
  qed
  then show ?thesis
    by (auto simp: generateFallbackSuggestions_refines default_suggestions_def)
qed

theorem matched_families_truncated_witness:
  "matched_families (toLowerCase ascii_runtime (str ''Our Marketing TEAM ships software built on data'')) =
     map snd keyword_families \<and>
   generateFallbackSuggestions ascii_runtime (str ''Our Marketing TEAM ships software built on data'') =
     [\<lparr>title = JStr (str ''Data Analytics Courses''),
       description = JStr (str ''Explore data science and analytics courses on LinkedIn Learning'')\<rparr>,
      \<lparr>title = JStr (str ''Digital Marketing Resources''),
       description = JStr (str ''Find marketing professionals and learning resources'')\<rparr>]"
proof -
  have m: "matched_families (toLowerCase ascii_runtime (str ''Our Marketing TEAM ships software built on data'')) =
      map snd keyword_families"
    by code_simp
  show ?thesis
    using matched_families_truncated [of ascii_runtime "str ''Our Marketing TEAM ships software built on data''"]
    unfolding m by (simp add: keyword_families_def)
qed

section \<open>Normalization of the API's answer\<close>

lemma format_suggestion_normalized:
  assumes "x \<noteq> JNull" and "x \<noteq> JUndefined"
  shows "format_suggestion x = Inr (normalized x)"
  using assms
  by (cases x) (simp_all add: format_suggestion_def get_member_def member_value_def normalized_def js_or_def)

lemma map_throwing_format:
  assumes "\<forall>x \<in> set xs. x \<noteq> JNull \<and> x \<noteq> JUndefined"
  shows "map_throwing format_suggestion xs = Inr (map normalized xs)"
  using assms by (induction xs) (simp_all add: format_suggestion_normalized)

text \<open>
  C6. When the API returns the fenced text, the clean-up strips the fence, the text
  parses as an array of one object, and the resolver returns exactly one suggestion with
  title "X" and the default description.
\<close>

theorem fenced_answer_normalized:
  assumes "key_configured e" and "openai (user_message content) = ExtText fenced_example"
  shows \<open>cleaned_response fenced_example = str ''[{"title":"X"}]'' \<and>
         json_parse (cleaned_response fenced_example) = Some (JArr [JObj [(str ''title'', JStr (str ''X''))]]) \<and>
         analyzeWithOpenAI rt e openai content =
           Inr [\<lparr>title = JStr (str ''X''),
                 description = JStr (str ''Explore related opportunities on LinkedIn'')\<rparr>]\<close>
proof -
  have p: "json_parse (cleaned_response fenced_example) = Some (JArr [JObj [(str ''title'', JStr (str ''X''))]])"
    by (simp add: fenced_example_cleaned fenced_example_parses)
  have n: "normalized (JObj [(str ''title'', JStr (str ''X''))]) =
      \<lparr>title = JStr (str ''X''), description = JStr (str ''Explore related opportunities on LinkedIn'')\<rparr>"
    using member_names_differ
    by (simp add: normalized_def member_value_def obj_member_def str_eq_Nil)
  have "map_throwing format_suggestion (take 2 [JObj [(str ''title'', JStr (str ''X''))]]) =
      Inr [normalized (JObj [(str ''title'', JStr (str ''X''))])]"
    using map_throwing_format [of "[JObj [(str ''title'', JStr (str ''X''))]]"] by simp
  with p n show ?thesis
    using analyzeWithOpenAI_text [where e = e and openai = openai and content = content
        and answer = fenced_example and rt = rt, OF assms]
    by (simp add: fenced_example_cleaned)
qed

theorem fenced_answer_normalized_witness:
  "analyzeWithOpenAI ascii_runtime with_credential (api_returns fenced_example) (str ''hello world'') =
     Inr [\<lparr>title = JStr (str ''X''),
           description = JStr (str ''Explore related opportunities on LinkedIn'')\<rparr>]"
  using fenced_answer_normalized [where e = with_credential and openai = "api_returns fenced_example"
      and content = "str ''hello world''" and rt = ascii_runtime]
  by (simp add: api_returns_def with_credential_configured)

text \<open>
  C7. For every content of at least 10 characters, the resolver's result when the API
  returns text that is not valid JSON equals its result when no credential is configured:
  both are the fallback generator's result for that content, whatever the text, the API
  and the environments are.
\<close>

theorem invalid_json_equals_no_credential:
  assumes "10 \<le> length content"
    and "key_configured e1" and "openai1 (user_message content) = ExtText answer"
    and "json_parse (cleaned_response answer) = None"
    and "\<not> key_configured e2"
  shows "analyzeWithOpenAI rt e1 openai1 content = analyzeWithOpenAI rt e2 openai2 content \<and>
         analyzeWithOpenAI rt e1 openai1 content = Inr (generateFallbackSuggestions rt content) \<and>
         analyzeWithOpenAI rt e2 openai2 content = Inr (generateFallbackSuggestions rt content)"
proof -
  have "analyzeWithOpenAI rt e1 openai1 content = Inr (generateFallbackSuggestions rt content)"
    using assms(4) analyzeWithOpenAI_text [where e = e1 and openai = openai1 and content = content
        and answer = answer and rt = rt, OF assms(2,3)]
    by simp
  moreover have "analyzeWithOpenAI rt e2 openai2 content = Inr (generateFallbackSuggestions rt content)"
    using assms(5) by (simp add: analyzeWithOpenAI_def)
  ultimately show ?thesis by simp
qed

theorem invalid_json_equals_no_credential_witness:
  "analyzeWithOpenAI ascii_runtime with_credential (api_returns (str ''Sorry, I cannot help with that.''))
       (str ''hello world'') =
     analyzeWithOpenAI ascii_runtime no_credential api_fails (str ''hello world'') \<and>
   analyzeWithOpenAI ascii_runtime with_credential (api_returns (str ''Sorry, I cannot help with that.''))
       (str ''hello world'') = Inr default_suggestions"
proof -
  have l: "10 \<le> length (str ''hello world'')"
    by (simp add: hello_world_length)
  have a: "api_returns (str ''Sorry, I cannot help with that.'') (user_message (str ''hello world'')) =
      ExtText (str ''Sorry, I cannot help with that.'')"
    by (simp add: api_returns_def)
  show ?thesis
    using invalid_json_equals_no_credential [where content = "str ''hello world''"
        and ?e1.0 = with_credential and ?openai1.0 = "api_returns (str ''Sorry, I cannot help with that.'')"
        and answer = "str ''Sorry, I cannot help with that.''" and ?e2.0 = no_credential
        and rt = ascii_runtime and ?openai2.0 = api_fails,
        OF l with_credential_configured a not_json_fails no_credential_unconfigured]
    by (simp add: hello_world_fallback)
qed

text \<open>
  C8, as the code has it. For every non-empty array the API returns whose first two
  elements are not \<open>null\<close>, the resolver returns one record per element of the first two,
  each of exactly the two members \<open>title\<close> and \<open>description\<close>; a member that is missing
  or falsy is replaced by the default text, and any other value is kept as it is,
  whatever its type.
\<close>

theorem array_answer_normalized:
  assumes "key_configured e" and "openai (user_message content) = ExtText answer"
    and "json_parse (cleaned_response answer) = Some (JArr xs)" and "xs \<noteq> []"
    and "JNull \<notin> set (take 2 xs)"
  shows "analyzeWithOpenAI rt e openai content = Inr (map normalized (take 2 xs))"
proof -
  from json_parse_defined [OF assms(3)] have "\<forall>x \<in> set xs. x \<noteq> JUndefined"
    by (auto simp: list_all_iff)
  with assms(5) set_take_subset [of 2 xs]
  have "\<forall>x \<in> set (take 2 xs). x \<noteq> JNull \<and> x \<noteq> JUndefined"
    by auto
  from assms(3,4) map_throwing_format [OF this] show ?thesis
    using analyzeWithOpenAI_text [where e = e and openai = openai and content = content
        and answer = answer and rt = rt, OF assms(1,2)]
    by simp
qed

theorem array_answer_normalized_witness:
  "analyzeWithOpenAI ascii_runtime with_credential (api_returns fenced_example) (str ''hello world'') =
     Inr (map normalized (take 2 [JObj [(str ''title'', JStr (str ''X''))]]))"
proof -
  have p: "json_parse (cleaned_response fenced_example) = Some (JArr [JObj [(str ''title'', JStr (str ''X''))]])"
    by (simp add: fenced_example_cleaned fenced_example_parses)
  have a: "api_returns fenced_example (user_message (str ''hello world'')) = ExtText fenced_example"
    by (simp add: api_returns_def)
  have n: "JNull \<notin> set (take 2 [JObj [(str ''title'', JStr (str ''X''))]])"
    by simp
  show ?thesis
    using array_answer_normalized [where e = with_credential and openai = "api_returns fenced_example"
        and content = "str ''hello world''" and answer = fenced_example
        and xs = "[JObj [(str ''title'', JStr (str ''X''))]]" and rt = ascii_runtime,
        OF with_credential_configured a p _ n]
    by simp
qed

text \<open>
  The claim as the specification states it fails: a title that is a number is returned
  as that number, not as a string.
\<close>

theorem array_answer_counterexample:
  \<open>json_parse (cleaned_response (str ''[{"title":5}]'')) = Some (JArr [JObj [(str ''title'', JNum 5)]]) \<and>
   analyzeWithOpenAI ascii_runtime with_credential (api_returns (str ''[{"title":5}]'')) (str ''hello world'') =
     Inr [\<lparr>title = JNum 5, description = JStr (str ''Explore related opportunities on LinkedIn'')\<rparr>] \<and>
   \<not> is_string (JNum 5)\<close>
proof -
  have n: "normalized (JObj [(str ''title'', JNum 5)]) =
      \<lparr>title = JNum 5, description = JStr (str ''Explore related opportunities on LinkedIn'')\<rparr>"
    using member_names_differ
    by (simp add: normalized_def member_value_def obj_member_def)
  have "map_throwing format_suggestion (take 2 [JObj [(str ''title'', JNum 5)]]) =
      Inr [normalized (JObj [(str ''title'', JNum 5)])]"
    using map_throwing_format [of "[JObj [(str ''title'', JNum 5)]]"] by simp
  with n show ?thesis
    using analyzeWithOpenAI_text [where e = with_credential
        and openai = \<open>api_returns (str ''[{"title":5}]'')\<close> and content = "str ''hello world''"
        and answer = \<open>str ''[{"title":5}]''\<close> and rt = ascii_runtime, OF with_credential_configured]
    by (simp add: api_returns_def number_title_parses)
qed

section \<open>The handler's error path\<close>








section \<open>Content that is not a string\<close>




end
